theory Spec2Isabelle
  imports Complex_Main "HOL-Library.Word" "HOL-Library.Multiset"
begin

section \<open>JavaScript strings\<close>

text \<open>
  A JavaScript string is a sequence of UTF-16 code units; \<open>length\<close>, \<open>charAt\<close>,
  \<open>substring\<close>, \<open>str_includes\<close> and regular expressions without the \<open>u\<close> flag all work
  on code units.  String literals of the source are written as code-unit lists; ASCII
  literals go through \<open>ascii\<close>.
\<close>

type_synonym jschar = "16 word"
type_synonym jsstring = "jschar list"

definition ascii :: "string \<Rightarrow> jsstring" where
  "ascii s = map (\<lambda>c. of_nat (of_char c)) s"

text \<open>
  ECMAScript WhiteSpace and LineTerminator code points: the set stripped by
  \<open>String.prototype.trim\<close> and matched by the regular-expression class \<open>\s\<close>.
\<close>

definition isWhiteSpace :: "jschar \<Rightarrow> bool" where
  "isWhiteSpace c =
     (c = 0x0009 \<or> c = 0x000A \<or> c = 0x000B \<or> c = 0x000C \<or> c = 0x000D \<or> c = 0x0020 \<or>
      c = 0x00A0 \<or> c = 0x1680 \<or> (0x2000 \<le> c \<and> c \<le> 0x200A) \<or> c = 0x2028 \<or> c = 0x2029 \<or>
      c = 0x202F \<or> c = 0x205F \<or> c = 0x3000 \<or> c = 0xFEFF)"

definition trim :: "jsstring \<Rightarrow> jsstring" where
  "trim s = rev (dropWhile isWhiteSpace (rev (dropWhile isWhiteSpace s)))"

text \<open>\<open>s.includes(k)\<close> (named \<open>str_includes\<close> here): \<open>k\<close> occurs in \<open>s\<close> as a contiguous run of code units.\<close>

definition startsWith :: "jsstring \<Rightarrow> jsstring \<Rightarrow> bool" where
  "startsWith s k = (take (length k) s = k)"

fun str_includes :: "jsstring \<Rightarrow> jsstring \<Rightarrow> bool" where
  "str_includes [] k = (k = [])"
| "str_includes (c # cs) k = (startsWith (c # cs) k \<or> str_includes cs k)"

section \<open>The activation gate (MultiTurnReportGenerator.shouldUseMultiTurn)\<close>

text \<open>
  \<open>containsKorean\<close> tests a character class of five code-unit ranges
  (1100-11FF, 3130-318F, A960-A97F, AC00-D7AF, D7B0-D7FF): some code unit of the text is
  a Hangul jamo or syllable.
\<close>

definition koreanUnit :: "jschar \<Rightarrow> bool" where
  "koreanUnit c =
     ((0x1100 \<le> c \<and> c \<le> 0x11FF) \<or> (0x3130 \<le> c \<and> c \<le> 0x318F) \<or>
      (0xA960 \<le> c \<and> c \<le> 0xA97F) \<or> (0xAC00 \<le> c \<and> c \<le> 0xD7AF) \<or>
      (0xD7B0 \<le> c \<and> c \<le> 0xD7FF))"

definition containsKorean :: "jsstring \<Rightarrow> bool" where
  "containsKorean text = list_ex koreanUnit text"

text \<open>The four keywords of the gate: "report" (loan word), "report", "draft", "write".\<close>

definition kwRipoteu :: jsstring where "kwRipoteu = [0xB9AC, 0xD3EC, 0xD2B8]"
definition kwBogoseo :: jsstring where "kwBogoseo = [0xBCF4, 0xACE0, 0xC11C]"
definition kwChoan :: jsstring where "kwChoan = [0xCD08, 0xC548]"
definition kwJakseong :: jsstring where "kwJakseong = [0xC791, 0xC131]"

definition reportKeywords :: "jsstring list" where
  "reportKeywords = [kwRipoteu, kwBogoseo, kwChoan, kwJakseong]"

definition shouldUseMultiTurn :: "jsstring \<Rightarrow> jsstring \<Rightarrow> bool" where
  "shouldUseMultiTurn instruction referenceText =
     (let isKorean = containsKorean instruction;
          isReportRequest = (str_includes instruction kwRipoteu \<or> str_includes instruction kwBogoseo \<or>
                             str_includes instruction kwChoan \<or> str_includes instruction kwJakseong);
          hasLargeReference = (length referenceText > 800);
          hasReference = (length (trim referenceText) > 0)
      in isKorean \<and> isReportRequest \<and> hasLargeReference \<and> hasReference)"

section \<open>The text-generation service and BaseAgent.generateWithRetry\<close>

text \<open>
  The service is a black box: a call takes a prompt and options and either returns text
  or throws an \<open>Error\<close>; it may answer differently from one call to the next, so it
  is a transition function on a state of its own.  The world threaded through the
  agents holds that state, the log of every \<open>generate\<close> call with its outcome, the
  number of one-second waits, and the progress events delivered to \<open>onProgress\<close>.
  Console output is not modelled.
\<close>

datatype error = Error jsstring

record GenerationOptions =
  maxTokens :: "nat option"
  temperature :: "rat option"

type_synonym outcome = "error + jsstring"

type_synonym 's service = "'s \<Rightarrow> jsstring \<Rightarrow> GenerationOptions \<Rightarrow> outcome \<times> 's"

record ReportProgress =
  stage :: jsstring
  message :: jsstring
  progress :: rat

record 's world =
  serviceState :: 's
  calls :: "(jsstring \<times> GenerationOptions \<times> outcome) list"
  waits :: nat
  events :: "ReportProgress list"

definition generate ::
  "'s service \<Rightarrow> jsstring \<Rightarrow> GenerationOptions \<Rightarrow> 's world \<Rightarrow> outcome \<times> 's world" where
  "generate svc prompt options w =
     (case svc (serviceState w) prompt options of
        (r, s') \<Rightarrow> (r, w\<lparr>serviceState := s', calls := calls w @ [(prompt, options, r)]\<rparr>))"

definition sleep1000 :: "'s world \<Rightarrow> 's world" where
  "sleep1000 w = w\<lparr>waits := waits w + 1\<rparr>"

text \<open>
  The \<open>for\<close> loop of \<open>generateWithRetry\<close>, with its counter \<open>i\<close> and \<open>lastError\<close>
  (\<open>None\<close> for \<open>null\<close>).  A thrown \<open>Error\<close> object is truthy, so \<open>lastError || new Error(...)\<close>
  is \<open>lastError\<close> unless no attempt was made.
\<close>

function retryLoop ::
  "'s service \<Rightarrow> jsstring \<Rightarrow> GenerationOptions \<Rightarrow> int \<Rightarrow> int \<Rightarrow> error option \<Rightarrow> 's world
     \<Rightarrow> outcome \<times> 's world" where
  "retryLoop svc prompt options maxRetries i lastError w =
     (if i \<le> maxRetries then
        (case generate svc prompt options w of
           (Inr text, w') \<Rightarrow> (Inr text, w')
         | (Inl err, w') \<Rightarrow>
             retryLoop svc prompt options maxRetries (i + 1) (Some err)
               (if i < maxRetries then sleep1000 w' else w'))
      else
        (Inl (case lastError of
                Some err \<Rightarrow> err
              | None \<Rightarrow> Error (ascii ''Generation failed after retries'')), w))"
  by pat_completeness auto
termination
  by (relation "measure (\<lambda>(svc, prompt, options, maxRetries, i, lastError, w). nat (maxRetries + 1 - i))")
    auto

definition generateWithRetry ::
  "'s service \<Rightarrow> jsstring \<Rightarrow> GenerationOptions \<Rightarrow> int \<Rightarrow> 's world \<Rightarrow> outcome \<times> 's world" where
  "generateWithRetry svc prompt options maxRetries w =
     retryLoop svc prompt options maxRetries 0 None w"

text \<open>The default of the parameter \<open>maxRetries\<close>.\<close>

definition defaultMaxRetries :: int where
  "defaultMaxRetries = 2"

section \<open>Facts and sections (BaseAgent.ts)\<close>

record KeyFacts =
  subject :: jsstring
  action :: jsstring
  details :: jsstring
  relevanceScore :: "rat option"

record ReportSection =
  title :: jsstring
  content :: jsstring
  facts :: "KeyFacts list"

section \<open>ContentWriter.writeSection\<close>

definition isDigit :: "jschar \<Rightarrow> bool" where
  "isDigit c = (0x30 \<le> c \<and> c \<le> 0x39)"

text \<open>
  Case-insensitive matching of a literal (flag \<open>i\<close>, no flag \<open>u\<close>): code units are
  compared after canonicalisation, which for the literals used here (ASCII letters,
  punctuation and Hangul) identifies exactly an ASCII letter with its other case.
\<close>

definition canonicalize :: "jschar \<Rightarrow> jschar" where
  "canonicalize c = (if 0x61 \<le> c \<and> c \<le> 0x7A then c - 0x20 else c)"

definition startsWithCI :: "jsstring \<Rightarrow> jsstring \<Rightarrow> bool" where
  "startsWithCI s k = (map canonicalize (take (length k) s) = map canonicalize k)"

text \<open>\<open>s.replace(/^\d+\.\s*/, '')\<close>\<close>

definition stripNumbering :: "jsstring \<Rightarrow> jsstring" where
  "stripNumbering s =
     (let ds = takeWhile isDigit s; rest = dropWhile isDigit s
      in if ds \<noteq> [] \<and> startsWith rest [0x2E]
         then dropWhile isWhiteSpace (drop 1 rest) else s)"

text \<open>\<open>s.replace(/^(a|b)/i, '')\<close> for two literal alternatives, tried in order.\<close>

definition stripLabel :: "jsstring \<Rightarrow> jsstring \<Rightarrow> jsstring \<Rightarrow> jsstring" where
  "stripLabel a b s =
     (if startsWithCI s a then drop (length a) s
      else if startsWithCI s b then drop (length b) s
      else s)"

definition lblSection :: jsstring where "lblSection = ascii ''Section:''"
definition lblSectionKo :: jsstring where "lblSectionKo = [0xC139, 0xC158, 0x003A]"
definition lblContent :: jsstring where "lblContent = ascii ''Content:''"
definition lblContentKo :: jsstring where "lblContentKo = [0xB0B4, 0xC6A9, 0x003A]"

definition cleanSectionContent :: "jsstring \<Rightarrow> jsstring" where
  "cleanSectionContent response =
     trim (stripNumbering (stripLabel lblContent lblContentKo
       (stripLabel lblSection lblSectionKo (trim response))))"

text \<open>\<open>xs.join(sep)\<close>\<close>

fun join :: "jsstring \<Rightarrow> jsstring list \<Rightarrow> jsstring" where
  "join sep [] = []"
| "join sep [x] = x"
| "join sep (x # y # ys) = x @ sep @ join sep (y # ys)"

text \<open>The placeholder's suffix: "-e daehan jeongboga bujokhamnida." (information on ... is lacking).\<close>

definition insufficientInfo :: jsstring where
  "insufficientInfo =
     [0xC5D0, 0x0020, 0xB300, 0xD55C, 0x0020, 0xC815, 0xBCF4, 0xAC00, 0x0020,
      0xBD80, 0xC871, 0xD569, 0xB2C8, 0xB2E4, 0x002E]"

definition sectionPrompt :: "jsstring \<Rightarrow> jsstring \<Rightarrow> jsstring" where
  "sectionPrompt sectionTitle factsText =
     ascii ''Write a Korean paragraph for this report section.\<newline>\<newline>Section title: '' @
     sectionTitle @
     ascii ''\<newline>\<newline>Facts to use:\<newline>'' @
     factsText @
     ascii ''\<newline>\<newline>Write 2-3 sentences in formal Korean. Use ONLY the facts provided above. Do not add information not in the facts.\<newline>\<newline>Important: Write in Korean language only.''"

definition writeSection ::
  "'s service \<Rightarrow> jsstring \<Rightarrow> KeyFacts list \<Rightarrow> 's world \<Rightarrow> outcome \<times> 's world" where
  "writeSection svc sectionTitle relevantFacts w =
     (if length relevantFacts = 0 then (Inr (sectionTitle @ insufficientInfo), w)
      else
        (let factsText = join (ascii '' '')
               (map (\<lambda>f. subject f @ ascii '' '' @ action f @ ascii ''. '' @ details f)
                  (take 3 relevantFacts));
             prompt = sectionPrompt sectionTitle factsText
         in case generateWithRetry svc prompt
                   \<lparr>maxTokens = Some 200, temperature = Some (1 / 2)\<rparr> defaultMaxRetries w of
              (Inl err, w') \<Rightarrow> (Inl err, w')
            | (Inr response, w') \<Rightarrow> (Inr (cleanSectionContent response), w')))"

section \<open>BaseAgent.chunkText\<close>


text \<open>\<open>s.lastIndexOf(c)\<close> for a single code unit: the last index holding \<open>c\<close>, or \<open>-1\<close>.\<close>

definition lastIndexOf :: "jsstring \<Rightarrow> jschar \<Rightarrow> int" where
  "lastIndexOf s c =
     (if c \<in> set s then int (length s) - 1 - int (length (takeWhile (\<lambda>x. x \<noteq> c) (rev s)))
      else - 1)"







section \<open>ReferenceProcessor: deduplication and ranking\<close>


text \<open>
  \<open>levenshteinDistance\<close> fills \<open>matrix[i][j]\<close> row by row, \<open>i\<close> over \<open>str2\<close> and \<open>j\<close>
  over \<open>str1\<close>.  \<open>fillRow\<close> is the inner loop for one \<open>i\<close>: it walks \<open>str1\<close> with
  the rest of row \<open>i - 1\<close> (its head is \<open>matrix[i-1][j-1]\<close>, the next cell is
  \<open>matrix[i-1][j]\<close>) and the cell just written, \<open>matrix[i][j-1]\<close>, and returns the cells
  \<open>matrix[i][1..]\<close>.  \<open>levRows\<close> is the outer loop; row \<open>0\<close> is \<open>[0, 1, ..., str1.length]\<close>
  and every row starts with \<open>matrix[i][0] = i\<close>.
\<close>

fun fillRow :: "jschar \<Rightarrow> jsstring \<Rightarrow> nat list \<Rightarrow> nat \<Rightarrow> nat list" where
  "fillRow c (d # str1) (diag # up # prev) left =
     (let cell = (if c = d then diag else min (diag + 1) (min (left + 1) (up + 1)))
      in cell # fillRow c str1 (up # prev) cell)"
| "fillRow c str1 prev left = []"

fun levRows :: "jsstring \<Rightarrow> jsstring \<Rightarrow> nat \<Rightarrow> nat list \<Rightarrow> nat list" where
  "levRows str1 [] i prev = prev"
| "levRows str1 (c # str2) i prev = levRows str1 str2 (i + 1) (i # fillRow c str1 prev i)"

definition levenshteinDistance :: "jsstring \<Rightarrow> jsstring \<Rightarrow> nat" where
  "levenshteinDistance str1 str2 = last (levRows str1 str2 1 [0..<length str1 + 1])"

definition calculateStringSimilarity :: "jsstring \<Rightarrow> jsstring \<Rightarrow> rat" where
  "calculateStringSimilarity str1 str2 =
     (let longer = (if length str1 > length str2 then str1 else str2);
          shorter = (if length str1 > length str2 then str2 else str1)
      in if length longer = 0 then 1
         else
           (let editDistance = levenshteinDistance longer shorter
            in (of_nat (length longer) - of_nat editDistance) / of_nat (length longer)))"

definition areFactsSimilar :: "(jsstring \<Rightarrow> jsstring) \<Rightarrow> KeyFacts \<Rightarrow> KeyFacts \<Rightarrow> bool" where
  "areFactsSimilar toLowerCase fact1 fact2 =
     (let similarity = calculateStringSimilarity (toLowerCase (subject fact1))
                         (toLowerCase (subject fact2))
      in similarity > 7 / 10)"

text \<open>\<open>/\d/.test(s)\<close> and \<open>/[A-Z][a-z]/.test(s)\<close>\<close>

definition hasDigit :: "jsstring \<Rightarrow> bool" where
  "hasDigit s = list_ex isDigit s"

fun hasCapitalized :: "jsstring \<Rightarrow> bool" where
  "hasCapitalized (c # d # s) =
     ((0x41 \<le> c \<and> c \<le> 0x5A \<and> 0x61 \<le> d \<and> d \<le> 0x7A) \<or> hasCapitalized (d # s))"
| "hasCapitalized s = False"

text \<open>Scores are JavaScript numbers; they are modelled as exact rationals.\<close>

definition calculateRelevanceScore :: "KeyFacts \<Rightarrow> rat" where
  "calculateRelevanceScore fct =
     (let score = 0;
          score = score + of_nat (length (details fct)) * (1 / 10);
          score = (if hasDigit (details fct) then score + 5 else score);
          score = (if hasCapitalized (subject fct) then score + 3 else score);
          score = score + of_nat (length (subject fct)) * (5 / 100)
      in score)"

text \<open>The \<open>for ... of\<close> loop of \<open>deduplicateAndRankFacts\<close> with the array \<open>uniqueFacts\<close>.\<close>

fun dedupLoop ::
  "(jsstring \<Rightarrow> jsstring) \<Rightarrow> KeyFacts list \<Rightarrow> KeyFacts list \<Rightarrow> KeyFacts list" where
  "dedupLoop toLowerCase [] uniqueFacts = uniqueFacts"
| "dedupLoop toLowerCase (fct # rest) uniqueFacts =
     (let isDuplicate = list_ex (\<lambda>existing. areFactsSimilar toLowerCase fct existing) uniqueFacts
      in if \<not> isDuplicate then dedupLoop toLowerCase rest (uniqueFacts @ [fct])
         else dedupLoop toLowerCase rest uniqueFacts)"

text \<open>
  \<open>xs.sort((a, b) => (b.relevanceScore || 0) - (a.relevanceScore || 0))\<close>: a stable sort
  (ECMAScript 2019) into descending order of the score, a missing score counting as 0.
\<close>

definition scoreOrZero :: "KeyFacts \<Rightarrow> rat" where
  "scoreOrZero fct = (case relevanceScore fct of None \<Rightarrow> 0 | Some x \<Rightarrow> x)"

definition sortByRelevance :: "KeyFacts list \<Rightarrow> KeyFacts list" where
  "sortByRelevance xs = sort_key (\<lambda>fct. - scoreOrZero fct) xs"

definition deduplicateAndRankFacts ::
  "(jsstring \<Rightarrow> jsstring) \<Rightarrow> KeyFacts list \<Rightarrow> KeyFacts list" where
  "deduplicateAndRankFacts toLowerCase factList =
     (let uniqueFacts = dedupLoop toLowerCase factList []
      in take 10 (sortByRelevance
           (map (\<lambda>fct. fct\<lparr>relevanceScore := Some (calculateRelevanceScore fct)\<rparr>)
              uniqueFacts)))"

text \<open>
  For the proofs: the edit distance of two strings by recursion on the strings (the
  matrix holds it for the reversed prefixes), the reversed prefixes of a string, the
  score-attaching step of the \<open>map\<close>, and pairwise dissimilarity of a fact list.
\<close>

fun editDist :: "jsstring \<Rightarrow> jsstring \<Rightarrow> nat" where
  "editDist [] ys = length ys"
| "editDist (x # xs) [] = length (x # xs)"
| "editDist (x # xs) (y # ys) =
     (if x = y then editDist xs ys
      else min (editDist xs ys + 1) (min (editDist (x # xs) ys + 1) (editDist xs (y # ys) + 1)))"

fun revPrefixes :: "jsstring \<Rightarrow> jsstring \<Rightarrow> jsstring list" where
  "revPrefixes ps [] = [ps]"
| "revPrefixes ps (r # rest) = ps # revPrefixes (r # ps) rest"

definition attachScore :: "KeyFacts \<Rightarrow> KeyFacts" where
  "attachScore fct = fct\<lparr>relevanceScore := Some (calculateRelevanceScore fct)\<rparr>"


definition dissimilar :: "(jsstring \<Rightarrow> jsstring) \<Rightarrow> KeyFacts list \<Rightarrow> bool" where
  "dissimilar lc xs \<longleftrightarrow>
     distinct xs \<and> (\<forall>a \<in> set xs. \<forall>b \<in> set xs. a \<noteq> b \<longrightarrow> \<not> areFactsSimilar lc a b)"

section \<open>ContentWriter.findRelevantFacts\<close>











section \<open>ReferenceProcessor: extraction of facts\<close>












section \<open>ContentWriter.generateKoreanReportOutline\<close>

record ReportOutline =
  title :: jsstring
  sections :: "jsstring list"












section \<open>MultiTurnReportGenerator.generateKoreanReport\<close>





















section \<open>Example inputs\<close>

text \<open>A service that fails on its first two calls and then echoes the prompt.\<close>

definition egError :: error where
  "egError = Error (ascii ''Generation failed: 500'')"

definition flakyService :: "nat service" where
  "flakyService n prompt options = (if n < 2 then Inl egError else Inr prompt, n + 1)"

definition egOptions :: GenerationOptions where
  "egOptions = \<lparr>maxTokens = Some 300, temperature = Some (3 / 10)\<rparr>"

definition world0 :: "nat world" where
  "world0 = \<lparr>serviceState = 0, calls = [], waits = 0, events = []\<rparr>"



declare retryLoop.simps [simp del]

section \<open>Properties of the string primitives\<close>

lemma includes_iff: "str_includes s k \<longleftrightarrow> (\<exists>pre post. s = pre @ k @ post)"
proof (induction s)
  case Nil
  then show ?case by auto
next
  case (Cons c cs)
  have "startsWith (c # cs) k \<longleftrightarrow> (\<exists>post. c # cs = k @ post)"
    unfolding startsWith_def
    by (metis append_eq_conv_conj)
  moreover have "(\<exists>pre post. c # cs = pre @ k @ post) \<longleftrightarrow>
      (\<exists>post. c # cs = k @ post) \<or> (\<exists>pre post. cs = pre @ k @ post)"
  proof
    assume "\<exists>pre post. c # cs = pre @ k @ post"
    then obtain pre post where e: "c # cs = pre @ k @ post" by blast
    show "(\<exists>post. c # cs = k @ post) \<or> (\<exists>pre post. cs = pre @ k @ post)"
    proof (cases pre)
      case Nil
      with e show ?thesis by auto
    next
      case (Cons p ps)
      with e have "cs = ps @ k @ post" by simp
      then show ?thesis by blast
    qed
  next
    assume "(\<exists>post. c # cs = k @ post) \<or> (\<exists>pre post. cs = pre @ k @ post)"
    then show "\<exists>pre post. c # cs = pre @ k @ post"
    proof
      assume "\<exists>post. c # cs = k @ post"
      then obtain post where "c # cs = [] @ k @ post" by auto
      then show ?thesis by blast
    next
      assume "\<exists>pre post. cs = pre @ k @ post"
      then obtain pre post where "c # cs = (c # pre) @ k @ post" by auto
      then show ?thesis by blast
    qed
  qed
  ultimately show ?case using Cons.IH by simp
qed

lemma containsKorean_iff: "containsKorean text \<longleftrightarrow> (\<exists>c \<in> set text. koreanUnit c)"
  by (simp add: containsKorean_def list_ex_iff)


section \<open>The gate\<close>

text \<open>
  C1.  \<open>shouldUseMultiTurn\<close> returns true exactly when all four conditions hold: some
  code unit of the instruction is Hangul, the instruction contains one of the four
  report keywords as a substring, the reference text is longer than 800 code units, and
  the reference text is not empty after trimming.
\<close>

theorem shouldUseMultiTurn_iff:
  "shouldUseMultiTurn instruction referenceText \<longleftrightarrow>
     (\<exists>c \<in> set instruction. koreanUnit c) \<and>
     (\<exists>k \<in> set reportKeywords. \<exists>pre post. instruction = pre @ k @ post) \<and>
     800 < length referenceText \<and>
     trim referenceText \<noteq> []"
  by (simp add: shouldUseMultiTurn_def Let_def containsKorean_iff includes_iff
      reportKeywords_def)

section \<open>Chunking: coverage and termination\<close>






lemma lastIndexOf_lower: "- 1 \<le> lastIndexOf s c"
proof (cases "c \<in> set s")
  case True
  have "length (takeWhile (\<lambda>x. x \<noteq> c) (rev s)) \<le> length (rev s)"
    by (rule length_takeWhile_le)
  moreover have "takeWhile (\<lambda>x. x \<noteq> c) (rev s) \<noteq> rev s"
    using True by simp
  moreover have "takeWhile (\<lambda>x. x \<noteq> c) (rev s) =
      take (length (takeWhile (\<lambda>x. x \<noteq> c) (rev s))) (rev s)"
    by (rule takeWhile_eq_take)
  ultimately have "length (takeWhile (\<lambda>x. x \<noteq> c) (rev s)) < length s"
    by (metis length_rev le_neq_implies_less take_all order_refl)
  with True show ?thesis by (simp add: lastIndexOf_def)
next
  case False
  then show ?thesis by (simp add: lastIndexOf_def)
qed















section \<open>Deduplication is idempotent\<close>

lemma editDist_Nil2: "editDist xs [] = length xs"
  by (cases xs) simp_all

lemma editDist_sym: "editDist xs ys = editDist ys xs"
  by (induction xs ys rule: editDist.induct) (simp_all add: editDist_Nil2 min.commute min.left_commute)

lemma editDist_refl: "editDist xs xs = 0"
  by (induction xs) simp_all

lemma revPrefixes_nonempty: "revPrefixes ps rest = ps # tl (revPrefixes ps rest)"
  by (cases rest) simp_all

lemma revPrefixes_ne: "revPrefixes ps rest \<noteq> []"
  by (cases rest) simp_all

lemma last_revPrefixes: "last (revPrefixes ps rest) = rev rest @ ps"
  by (induction rest arbitrary: ps) (simp_all add: revPrefixes_ne)

lemma fillRow_editDist:
  "fillRow c rest (map (editDist xs) (revPrefixes ps rest)) (editDist (c # xs) ps) =
     map (editDist (c # xs)) (tl (revPrefixes ps rest))"
proof (induction rest arbitrary: ps)
  case Nil
  then show ?case by simp
next
  case (Cons d rest)
  have "revPrefixes (d # ps) rest = (d # ps) # tl (revPrefixes (d # ps) rest)"
    by (rule revPrefixes_nonempty)
  then obtain tl' where t: "revPrefixes (d # ps) rest = (d # ps) # tl'" by blast
  have cell: "(if c = d then editDist xs ps
               else min (editDist xs ps + 1) (min (editDist (c # xs) ps + 1) (editDist xs (d # ps) + 1)))
              = editDist (c # xs) (d # ps)"
    by simp
  have "fillRow c (d # rest) (map (editDist xs) (revPrefixes ps (d # rest))) (editDist (c # xs) ps) =
      fillRow c (d # rest) (editDist xs ps # editDist xs (d # ps) # map (editDist xs) tl')
        (editDist (c # xs) ps)"
    by (simp only: revPrefixes.simps t list.map)
  also have "\<dots> = editDist (c # xs) (d # ps) #
      fillRow c rest (editDist xs (d # ps) # map (editDist xs) tl') (editDist (c # xs) (d # ps))"
    by (simp only: fillRow.simps Let_def cell)
  also have "fillRow c rest (editDist xs (d # ps) # map (editDist xs) tl') (editDist (c # xs) (d # ps)) =
      map (editDist (c # xs)) tl'"
    using Cons.IH [of "d # ps"] by (simp only: t list.map list.sel)
  finally show ?case
    by (simp only: revPrefixes.simps t list.map list.sel)
qed

lemma row0: "[0..<length str1 + 1] = map (editDist []) (revPrefixes [] str1)"
proof -
  have "map length (revPrefixes ps str1) = [length ps..<length ps + length str1 + 1]" for ps
    by (induction str1 arbitrary: ps) (simp_all add: upt_rec)
  from this [of "[]"] have "map length (revPrefixes [] str1) = [0..<length str1 + 1]" by simp
  moreover have "editDist [] = length" by (rule ext) simp
  ultimately show ?thesis by simp
qed

lemma levRows_editDist:
  "levRows str1 str2 (length xs + 1) (map (editDist xs) (revPrefixes [] str1)) =
     map (editDist (rev str2 @ xs)) (revPrefixes [] str1)"
proof (induction str2 arbitrary: xs)
  case Nil
  then show ?case by simp
next
  case (Cons c str2)
  have "fillRow c str1 (map (editDist xs) (revPrefixes [] str1)) (editDist (c # xs) []) =
     map (editDist (c # xs)) (tl (revPrefixes [] str1))"
    by (rule fillRow_editDist)
  then have "(length xs + 1) # fillRow c str1 (map (editDist xs) (revPrefixes [] str1)) (length xs + 1) =
     map (editDist (c # xs)) (revPrefixes [] str1)"
    by (subst (2) revPrefixes_nonempty) simp
  with Cons.IH [of "c # xs"] show ?case by simp
qed

lemma levenshteinDistance_editDist:
  "levenshteinDistance str1 str2 = editDist (rev str2) (rev str1)"
proof -
  have "levRows str1 str2 (length ([] :: jsstring) + 1) (map (editDist []) (revPrefixes [] str1)) =
      map (editDist (rev str2 @ [])) (revPrefixes [] str1)"
    by (rule levRows_editDist)
  then have "levRows str1 str2 1 [0..<length str1 + 1] =
      map (editDist (rev str2)) (revPrefixes [] str1)"
    by (simp only: row0 list.size add_0 append_Nil2)
  then show ?thesis
    by (simp only: levenshteinDistance_def last_map [OF revPrefixes_ne] last_revPrefixes append_Nil2)
qed

lemma levenshteinDistance_sym: "levenshteinDistance str1 str2 = levenshteinDistance str2 str1"
  by (simp add: levenshteinDistance_editDist editDist_sym)

lemma levenshteinDistance_refl: "levenshteinDistance s s = 0"
  by (simp add: levenshteinDistance_editDist editDist_refl)

lemma calculateStringSimilarity_sym:
  "calculateStringSimilarity str1 str2 = calculateStringSimilarity str2 str1"
  by (auto simp: calculateStringSimilarity_def Let_def levenshteinDistance_sym [of str1 str2])

lemma calculateStringSimilarity_refl: "calculateStringSimilarity s s = 1"
  by (simp add: calculateStringSimilarity_def Let_def levenshteinDistance_refl)

lemma areFactsSimilar_sym: "areFactsSimilar lc a b = areFactsSimilar lc b a"
  by (simp add: areFactsSimilar_def calculateStringSimilarity_sym [of "lc (subject a)"])

lemma areFactsSimilar_subject: "subject a = subject b \<Longrightarrow> areFactsSimilar lc a b"
  by (simp add: areFactsSimilar_def calculateStringSimilarity_refl)


lemma dedupLoop_sorted:
  "sorted_wrt (\<lambda>a b. \<not> areFactsSimilar lc b a) acc \<Longrightarrow>
   sorted_wrt (\<lambda>a b. \<not> areFactsSimilar lc b a) (dedupLoop lc fs acc)"
  by (induction fs arbitrary: acc) (auto simp: Let_def sorted_wrt_append list_ex_iff)

lemma dedupLoop_id:
  "sorted_wrt (\<lambda>a b. \<not> areFactsSimilar lc b a) (acc @ fs) \<Longrightarrow> dedupLoop lc fs acc = acc @ fs"
proof (induction fs arbitrary: acc)
  case Nil
  then show ?case by simp
next
  case (Cons f fs)
  from Cons.prems have "\<forall>e \<in> set acc. \<not> areFactsSimilar lc f e"
    by (auto simp: sorted_wrt_append)
  moreover from Cons.prems have "sorted_wrt (\<lambda>a b. \<not> areFactsSimilar lc b a) ((acc @ [f]) @ fs)"
    by simp
  ultimately show ?case using Cons.IH [of "acc @ [f]"]
    by (simp add: Let_def list_ex_iff)
qed

lemma dissimilar_Cons:
  "dissimilar lc (x # xs) \<longleftrightarrow> (\<forall>y \<in> set xs. \<not> areFactsSimilar lc y x) \<and> dissimilar lc xs"
proof
  assume d: "dissimilar lc (x # xs)"
  then have nx: "x \<notin> set xs" and dx: "distinct xs"
    by (simp_all add: dissimilar_def)
  from d have p: "\<forall>a \<in> set (x # xs). \<forall>b \<in> set (x # xs). a \<noteq> b \<longrightarrow> \<not> areFactsSimilar lc a b"
    unfolding dissimilar_def by (rule conjunct2)
  have "\<not> areFactsSimilar lc y x" if "y \<in> set xs" for y
  proof -
    from that nx have "y \<noteq> x" by blast
    moreover have "y \<in> set (x # xs)" "x \<in> set (x # xs)" using that by simp_all
    ultimately show ?thesis using p by blast
  qed
  moreover have "dissimilar lc xs"
  proof -
    have "\<not> areFactsSimilar lc a b" if "a \<in> set xs" "b \<in> set xs" "a \<noteq> b" for a b
    proof -
      have "a \<in> set (x # xs)" "b \<in> set (x # xs)" using that by simp_all
      with p that(3) show ?thesis by blast
    qed
    with dx show ?thesis unfolding dissimilar_def by blast
  qed
  ultimately show "(\<forall>y \<in> set xs. \<not> areFactsSimilar lc y x) \<and> dissimilar lc xs" by blast
next
  assume a: "(\<forall>y \<in> set xs. \<not> areFactsSimilar lc y x) \<and> dissimilar lc xs"
  have r: "areFactsSimilar lc x x" by (simp add: areFactsSimilar_subject)
  from a r have nx: "x \<notin> set xs" by blast
  have "\<not> areFactsSimilar lc u v" if "u \<in> set (x # xs)" "v \<in> set (x # xs)" "u \<noteq> v" for u v
  proof (cases "u = x")
    case True
    with that have "v \<in> set xs" by auto
    with a have "\<not> areFactsSimilar lc v x" by blast
    then show ?thesis using True by (simp add: areFactsSimilar_sym [of lc x v])
  next
    case False
    with that have u: "u \<in> set xs" by auto
    show ?thesis
    proof (cases "v = x")
      case True
      with a u show ?thesis by blast
    next
      case False
      with that have "v \<in> set xs" by auto
      with a u that(3) show ?thesis unfolding dissimilar_def by blast
    qed
  qed
  with nx a show "dissimilar lc (x # xs)"
    unfolding dissimilar_def distinct.simps by blast
qed

lemma sorted_wrt_dissimilar:
  "sorted_wrt (\<lambda>a b. \<not> areFactsSimilar lc b a) xs \<longleftrightarrow> dissimilar lc xs"
proof (induction xs)
  case Nil
  then show ?case by (simp add: dissimilar_def)
next
  case (Cons x xs)
  then show ?case by (simp only: sorted_wrt.simps dissimilar_Cons)
qed

lemma dissimilar_perm:
  assumes "mset xs = mset ys" "dissimilar lc xs"
  shows "dissimilar lc ys"
proof -
  from assms(1) have "set xs = set ys" by (rule mset_eq_setD)
  moreover from assms(1) have "distinct xs = distinct ys" by (rule mset_eq_imp_distinct_iff)
  ultimately show ?thesis using assms(2) by (simp add: dissimilar_def)
qed

lemma dissimilar_take:
  assumes "dissimilar lc xs"
  shows "dissimilar lc (take n xs)"
proof -
  have "set (take n xs) \<subseteq> set xs" by (rule set_take_subset)
  moreover from assms have "distinct (take n xs)" by (simp add: dissimilar_def)
  ultimately show ?thesis using assms unfolding dissimilar_def by blast
qed

lemma subject_attachScore: "subject (attachScore f) = subject f"
  by (simp add: attachScore_def)

lemma areFactsSimilar_attach:
  "areFactsSimilar lc (attachScore a) (attachScore b) = areFactsSimilar lc a b"
  by (simp add: areFactsSimilar_def subject_attachScore)

lemma dissimilar_map_attach:
  assumes "dissimilar lc xs"
  shows "dissimilar lc (map attachScore xs)"
proof -
  have inj: "inj_on attachScore (set xs)"
  proof (rule inj_onI)
    fix a b assume ab: "a \<in> set xs" "b \<in> set xs" "attachScore a = attachScore b"
    then have "subject a = subject b" by (metis subject_attachScore)
    then have "areFactsSimilar lc a b" by (rule areFactsSimilar_subject)
    with assms ab show "a = b" unfolding dissimilar_def by blast
  qed
  with assms have "distinct (map attachScore xs)"
    by (simp add: dissimilar_def distinct_map)
  moreover have "\<not> areFactsSimilar lc a' b'"
    if "a' \<in> set (map attachScore xs)" "b' \<in> set (map attachScore xs)" "a' \<noteq> b'" for a' b'
  proof -
    from that obtain a b where "a \<in> set xs" "b \<in> set xs" "a' = attachScore a" "b' = attachScore b" "a \<noteq> b"
      by auto
    with assms show ?thesis by (simp add: areFactsSimilar_attach dissimilar_def)
  qed
  ultimately show ?thesis unfolding dissimilar_def by blast
qed

lemma attachScore_idem: "attachScore (attachScore f) = attachScore f"
  by (simp add: attachScore_def calculateRelevanceScore_def)

lemma sortByRelevance_sorted: "sorted (map (\<lambda>f. - scoreOrZero f) (sortByRelevance xs))"
  by (simp add: sortByRelevance_def)

lemma sortByRelevance_id:
  "sorted (map (\<lambda>f. - scoreOrZero f) xs) \<Longrightarrow> sortByRelevance xs = xs"
  by (simp add: sortByRelevance_def sort_key_id_if_sorted)

lemma deduplicateAndRankFacts_alt:
  "deduplicateAndRankFacts lc fs = take 10 (sortByRelevance (map attachScore (dedupLoop lc fs [])))"
  by (simp add: deduplicateAndRankFacts_def attachScore_def [abs_def])

text \<open>
  C3.  Running \<open>deduplicateAndRankFacts\<close> on its own output returns that output: the
  facts kept are pairwise dissimilar (similarity is symmetric), so the second run keeps
  them all in order; their scores, a function of subject and details, are recomputed to
  the same values; and a list sorted by a stable sort and cut to ten stays as it is.
\<close>

theorem deduplicateAndRankFacts_idempotent:
  "deduplicateAndRankFacts lc (deduplicateAndRankFacts lc fs) = deduplicateAndRankFacts lc fs"
proof -
  define U where "U = dedupLoop lc fs []"
  define S where "S = sortByRelevance (map attachScore U)"
  define R where "R = take 10 S"
  have R: "deduplicateAndRankFacts lc fs = R"
    by (simp add: deduplicateAndRankFacts_alt U_def S_def R_def)
  have "sorted_wrt (\<lambda>a b. \<not> areFactsSimilar lc b a) U"
    unfolding U_def by (rule dedupLoop_sorted) simp
  then have "dissimilar lc (map attachScore U)"
    by (simp add: sorted_wrt_dissimilar dissimilar_map_attach)
  moreover have "mset (map attachScore U) = mset S"
    by (simp add: S_def sortByRelevance_def)
  ultimately have "dissimilar lc S" by (rule dissimilar_perm [rotated])
  then have "dissimilar lc R" unfolding R_def by (rule dissimilar_take)
  then have "dedupLoop lc R [] = R"
    using dedupLoop_id [of lc "[]" R] by (simp add: sorted_wrt_dissimilar)
  moreover have "map attachScore R = R"
  proof (rule map_idI)
    fix r assume "r \<in> set R"
    then have "r \<in> set (map attachScore U)"
      unfolding R_def S_def sortByRelevance_def by (auto dest: in_set_takeD)
    then show "attachScore r = r" by (auto simp: attachScore_idem)
  qed
  moreover have "sortByRelevance R = R"
  proof (rule sortByRelevance_id)
    have "sorted (map (\<lambda>f. - scoreOrZero f) S)" unfolding S_def by (rule sortByRelevance_sorted)
    then show "sorted (map (\<lambda>f. - scoreOrZero f) R)"
      unfolding R_def by (simp add: take_map [symmetric] sorted_wrt_take)
  qed
  moreover have "take 10 R = R" unfolding R_def by simp
  ultimately show ?thesis
    unfolding R by (simp add: deduplicateAndRankFacts_alt)
qed

section \<open>Relevance matching\<close>









section \<open>Bounded retry\<close>

text \<open>
  C6.  With the default bound, \<open>generateWithRetry\<close> makes between one and three calls to
  the service, all with the given prompt and options; every call but the last one made
  has failed; the outcome of the last call made is what the caller gets, so a success
  ends the attempts at once; and an error surfaces only after exactly three calls, and
  it is the error of the third.
\<close>

theorem generateWithRetry_default:
  assumes "generateWithRetry svc prompt options defaultMaxRetries w = (r, w')"
  shows "\<exists>new. calls w' = calls w @ new \<and>
           1 \<le> length new \<and> length new \<le> 3 \<and>
           (\<forall>c \<in> set new. fst c = prompt \<and> fst (snd c) = options) \<and>
           (\<forall>c \<in> set (butlast new). isl (snd (snd c))) \<and>
           snd (snd (last new)) = r \<and>
           (isl r \<longrightarrow> length new = 3)"
proof -
  obtain r1 s1 where g1: "svc (serviceState w) prompt options = (r1, s1)" by force
  obtain r2 s2 where g2: "svc s1 prompt options = (r2, s2)" by force
  obtain r3 s3 where g3: "svc s2 prompt options = (r3, s3)" by force
  show ?thesis
  proof (cases r1)
    case (Inr t1)
    with assms g1 have "calls w' = calls w @ [(prompt, options, r1)]" "r = r1"
      by (auto simp: generateWithRetry_def defaultMaxRetries_def
          retryLoop.simps [of _ _ _ 2 0] generate_def)
    then show ?thesis by (auto simp: Inr)
  next
    case e1: (Inl e1)
    show ?thesis
    proof (cases r2)
      case (Inr t2)
      with assms g1 g2 e1
      have "calls w' = calls w @ [(prompt, options, r1), (prompt, options, r2)]" "r = r2"
        by (auto simp: generateWithRetry_def defaultMaxRetries_def
            retryLoop.simps [of _ _ _ 2 0] retryLoop.simps [of _ _ _ 2 1]
            generate_def sleep1000_def)
      then show ?thesis by (auto simp: Inr e1)
    next
      case e2: (Inl e2)
      with assms g1 g2 g3 e1
      have "calls w' = calls w @
              [(prompt, options, r1), (prompt, options, r2), (prompt, options, r3)]" "r = r3"
        by (auto simp: generateWithRetry_def defaultMaxRetries_def
            retryLoop.simps [of _ _ _ 2 0] retryLoop.simps [of _ _ _ 2 1]
            retryLoop.simps [of _ _ _ 2 2] retryLoop.simps [of _ _ _ 2 3]
            generate_def sleep1000_def split: sum.splits)
      then show ?thesis by (auto simp: e1 e2)
    qed
  qed
qed

theorem generateWithRetry_default_witness:
  "generateWithRetry flakyService [0x61] egOptions defaultMaxRetries world0 =
     (Inr [0x61],
      \<lparr>serviceState = 3,
       calls = [([0x61], egOptions, Inl egError), ([0x61], egOptions, Inl egError),
                ([0x61], egOptions, Inr [0x61])],
       waits = 2, events = []\<rparr>) \<and>
   (\<exists>new. [([0x61], egOptions, Inl egError), ([0x61], egOptions, Inl egError),
           ([0x61], egOptions, Inr [0x61 :: jschar])] = [] @ new \<and> length new = 3)"
proof -
  have run: "generateWithRetry flakyService [0x61] egOptions defaultMaxRetries world0 =
     (Inr [0x61],
      \<lparr>serviceState = 3,
       calls = [([0x61], egOptions, Inl egError), ([0x61], egOptions, Inl egError),
                ([0x61], egOptions, Inr [0x61])],
       waits = 2, events = []\<rparr>)"
    by (simp add: generateWithRetry_def defaultMaxRetries_def
        retryLoop.simps [of _ _ _ 2 0] retryLoop.simps [of _ _ _ 2 1]
        retryLoop.simps [of _ _ _ 2 2] generate_def sleep1000_def flakyService_def world0_def)
  from generateWithRetry_default [OF run] show ?thesis
    using run by (simp add: world0_def)
qed

section \<open>Sections without facts\<close>

text \<open>
  C7.  Called with an empty fact list, \<open>writeSection\<close> returns the section title followed
  by the fixed "information is lacking" text, and leaves the world as it was: the log of
  calls to the text-generation service is unchanged, so no call was made.
\<close>

theorem writeSection_no_facts:
  "writeSection svc sectionTitle [] w = (Inr (sectionTitle @ insufficientInfo), w) \<and>
   calls (snd (writeSection svc sectionTitle [] w)) = calls w"
  by (simp add: writeSection_def)

section \<open>The pipeline: failures and progress\<close>















end
